theory Spec2Isabelle
  imports Main "HOL-Library.Word"
begin

section \<open>The worker gateway: public-key authentication and server construction\<close>

text \<open>
  A shallow embedding of \<^verbatim>\<open>tsa/tsacmd/command.go\<close> and of
  \<^verbatim>\<open>atc/api/present/pipelines.go\<close>.

  Go's \<^verbatim>\<open>string\<close> and \<^verbatim>\<open>[]byte\<close> are both sequences of bytes; both are
  modelled as lists of 8-bit characters, so that \<^verbatim>\<open>string(b)\<close> is the identity.
  The shared, mutable session registry is passed explicitly: a function that may write
  to it takes the registry and returns the registry it leaves behind.
\<close>

subsection \<open>Keys, connections and errors\<close>

type_synonym bytes = string

text \<open>\<^verbatim>\<open>ssh.PublicKey\<close>: the code only ever calls \<^verbatim>\<open>Marshal()\<close> on a key.\<close>

datatype PublicKey = PublicKey (Marshal: bytes)

text \<open>
  \<^verbatim>\<open>flag.PrivateKey\<close> wraps an RSA private key; a \<^verbatim>\<open>*flag.PrivateKey\<close> is an
  option, \<open>None\<close> for nil.
\<close>

datatype rsa_PrivateKey = rsa_PrivateKey bytes

datatype flag_PrivateKey = flag_PrivateKey (PrivateKey: rsa_PrivateKey)

text \<open>\<^verbatim>\<open>ssh.ConnMetadata\<close>, with the accessors of the interface as fields.\<close>

record ConnMetadata =
  User :: string
  SessionID :: bytes

text \<open>\<^verbatim>\<open>ssh.Permissions\<close>; a \<^verbatim>\<open>*ssh.Permissions\<close> is an option, \<open>None\<close> for nil.\<close>

datatype Permissions = Permissions "(string \<times> string) list" "(string \<times> string) list"

text \<open>
  An error value is the message given to \<^verbatim>\<open>fmt.Errorf\<close>. \<open>InvariantViolation\<close> is
  the failure of the session registry that is fatal to its caller.
\<close>

datatype error = Errorf string | InvariantViolation

fun Error :: "error \<Rightarrow> string" where
  "Error (Errorf msg) = msg"
| "Error InvariantViolation = ''invariant violation''"

definition bytes_Equal :: "bytes \<Rightarrow> bytes \<Rightarrow> bool" where
  "bytes_Equal a b = (a = b)"

record TeamAuthKeys =
  Team :: string
  AuthKeys :: "PublicKey list"

subsection \<open>The session registry\<close>

text \<open>
  \<^verbatim>\<open>sessionTeam{sessionTeams: make(map[string]string), lock: &sync.RWMutex{}}\<close>.
  The model is sequential, so the lock has no counterpart.
\<close>

record sessionTeam =
  sessionTeams :: "string \<rightharpoonup> string"

text \<open>
  Modelled from the spec: the method \<^verbatim>\<open>AuthorizeTeam\<close> of \<^verbatim>\<open>sessionTeam\<close> is
  called by \<^verbatim>\<open>command.go\<close> but defined elsewhere. It is the operation
  \<^verbatim>\<open>Bind(sessionID, tenant)\<close> of the specification: "idempotent if called again
  with the same tenant, but must reject (as a programming-invariant violation,
  fatal-to-caller) a second call with a different tenant for the same still-bound
  session".
\<close>

definition AuthorizeTeam :: "sessionTeam \<Rightarrow> string \<Rightarrow> string \<Rightarrow> error + sessionTeam" where
  "AuthorizeTeam s sessionID team =
     (case sessionTeams s sessionID of
        None \<Rightarrow> Inr (s\<lparr>sessionTeams := (sessionTeams s)(sessionID \<mapsto> team)\<rparr>)
      | Some bound \<Rightarrow> if bound = team then Inr s else Inl InvariantViolation)"

text \<open>
  Modelled from the spec: the read accessor of \<^verbatim>\<open>sessionTeam\<close>, defined outside
  \<^verbatim>\<open>command.go\<close>. It is \<^verbatim>\<open>Lookup(sessionID) -> Optional<TenantName>\<close> of the
  specification.
\<close>

definition Lookup :: "sessionTeam \<Rightarrow> string \<Rightarrow> string option" where
  "Lookup s sessionID = sessionTeams s sessionID"

subsection \<open>The fallback for plain public keys\<close>

text \<open>
  \<^verbatim>\<open>for _, k := range keys { if bytes.Equal(k.Marshal(), key.Marshal()) { ... return } }\<close>:
  the result says whether the body of the \<^verbatim>\<open>if\<close> was reached. Both the loop over
  the global keys and the inner loop over one team's keys have this shape.
\<close>

fun keys_loop :: "PublicKey list \<Rightarrow> PublicKey \<Rightarrow> bool" where
  "keys_loop [] key = False"
| "keys_loop (k # ks) key =
     (if bytes_Equal (Marshal k) (Marshal key) then True else keys_loop ks key)"

text \<open>
  The loop over the teams, together with the final \<^verbatim>\<open>return nil, fmt.Errorf(...)\<close>.
  A Go result \<^verbatim>\<open>(perms, nil)\<close> is \<open>Inr perms\<close> and \<^verbatim>\<open>(nil, err)\<close> is \<open>Inl err\<close>.
  A failure of \<open>AuthorizeTeam\<close> aborts the callback and leaves the registry as it was.
\<close>

fun teams_loop ::
  "TeamAuthKeys list \<Rightarrow> ConnMetadata \<Rightarrow> PublicKey \<Rightarrow> sessionTeam
     \<Rightarrow> (error + Permissions option) \<times> sessionTeam" where
  "teams_loop [] conn key s = (Inl (Errorf ''unknown public key''), s)"
| "teams_loop (teamKeys # rest) conn key s =
     (if keys_loop (AuthKeys teamKeys) key
      then (case AuthorizeTeam s (SessionID conn) (Team teamKeys) of
              Inl e \<Rightarrow> (Inl e, s)
            | Inr s' \<Rightarrow> (Inr None, s'))
      else teams_loop rest conn key s)"

text \<open>
  The function literal stored in the field \<^verbatim>\<open>UserKeyFallback\<close> of the certificate
  checker. It closes over the two key lists and over the pointer to the registry; the
  registry it finds when called is the argument \<open>s\<close>.
\<close>

definition UserKeyFallback_func ::
  "PublicKey list \<Rightarrow> TeamAuthKeys list \<Rightarrow> ConnMetadata \<Rightarrow> PublicKey \<Rightarrow> sessionTeam
     \<Rightarrow> (error + Permissions option) \<times> sessionTeam" where
  "UserKeyFallback_func authorizedKeys teamAuthorizedKeys conn key s =
     (if keys_loop authorizedKeys key then (Inr None, s)
      else teams_loop teamAuthorizedKeys conn key s)"

subsection \<open>The SSH server configuration\<close>

text \<open>\<^verbatim>\<open>ssh.CertChecker\<close>, with the three fields that the code sets.\<close>

record CertChecker =
  IsUserAuthority :: "PublicKey \<Rightarrow> bool"
  IsHostAuthority :: "PublicKey \<Rightarrow> string \<Rightarrow> bool"
  UserKeyFallback ::
    "ConnMetadata \<Rightarrow> PublicKey \<Rightarrow> sessionTeam \<Rightarrow> (error + Permissions option) \<times> sessionTeam"

text \<open>The composite literal \<^verbatim>\<open>certChecker := &ssh.CertChecker{...}\<close>.\<close>

definition certChecker :: "PublicKey list \<Rightarrow> TeamAuthKeys list \<Rightarrow> CertChecker" where
  "certChecker authorizedKeys teamAuthorizedKeys =
     \<lparr>IsUserAuthority = (\<lambda>key. False),
      IsHostAuthority = (\<lambda>key address. False),
      UserKeyFallback = UserKeyFallback_func authorizedKeys teamAuthorizedKeys\<rparr>"

datatype Signer = Signer flag_PrivateKey

text \<open>The value of \<^verbatim>\<open>atc.DefaultSSHConfig()\<close>, which no function here inspects.\<close>

datatype ssh_Config = DefaultSSHConfig

record ServerConfig =
  Config :: ssh_Config
  PublicKeyCallback ::
    "ConnMetadata \<Rightarrow> PublicKey \<Rightarrow> sessionTeam \<Rightarrow> (error + Permissions option) \<times> sessionTeam"
  hostKeys :: "Signer list"

text \<open>
  The two functions of \<^verbatim>\<open>golang.org/x/crypto/ssh\<close> that the code calls and whose
  results it depends on are parameters of the model: \<^verbatim>\<open>ssh.NewSignerFromKey\<close> and
  the method \<^verbatim>\<open>Authenticate\<close> of \<^verbatim>\<open>ssh.CertChecker\<close>.
\<close>

record ssh_package =
  NewSignerFromKey :: "flag_PrivateKey option \<Rightarrow> error + Signer"
  Authenticate ::
    "CertChecker \<Rightarrow> ConnMetadata \<Rightarrow> PublicKey \<Rightarrow> sessionTeam
       \<Rightarrow> (error + Permissions option) \<times> sessionTeam"

definition AddHostKey :: "ServerConfig \<Rightarrow> Signer \<Rightarrow> ServerConfig" where
  "AddHostKey config signer = config\<lparr>hostKeys := hostKeys config @ [signer]\<rparr>"

subsection \<open>The command and its runner\<close>

text \<open>\<^verbatim>\<open>time.Duration\<close> is a signed 64-bit count of nanoseconds.\<close>

type_synonym Duration = "64 word"

definition Second :: Duration where
  "Second = 1000000000"

record flag_AuthorizedKeys =
  Keys :: "PublicKey list"

record flag_Lager =
  LogLevel :: string

record WebConfig =
  LogClusterName :: bool
  ClusterName :: string

text \<open>
  A \<^verbatim>\<open>lager.Logger\<close> is its component name and the data attached to it; what it
  logs is collected as a list of entries.
\<close>

record lager_Logger =
  component :: string
  data :: "(string \<times> string) list"

datatype LogLevel = DEBUG | INFO | ERROR | FATAL

record LogEntry =
  source :: lager_Logger
  level :: LogLevel
  action :: string

datatype ReconfigurableSink = ReconfigurableSink flag_Lager

definition flag_Lager_Logger :: "flag_Lager \<Rightarrow> string \<Rightarrow> lager_Logger \<times> ReconfigurableSink" where
  "flag_Lager_Logger l name = (\<lparr>component = name, data = []\<rparr>, ReconfigurableSink l)"

definition WithData :: "lager_Logger \<Rightarrow> (string \<times> string) list \<Rightarrow> lager_Logger" where
  "WithData logger d = logger\<lparr>data := data logger @ d\<rparr>"

definition Info :: "lager_Logger \<Rightarrow> string \<Rightarrow> LogEntry" where
  "Info logger a = \<lparr>source = logger, level = INFO, action = a\<rparr>"

text \<open>
  The struct \<^verbatim>\<open>TSACommand\<close>. The map \<^verbatim>\<open>TeamAuthorizedKeys\<close> is the list of its
  entries, one per team name, in the order in which the process iterates over it.
\<close>

record TSACommand =
  Logger :: flag_Lager
  BindIP :: string
  PeerAddress :: string
  BindPort :: "16 word"
  DebugBindIP :: string
  DebugBindPort :: "16 word"
  HostKey :: "flag_PrivateKey option"
  AuthorizedKeys :: flag_AuthorizedKeys
  TeamAuthorizedKeys :: "(string \<times> flag_AuthorizedKeys) list"
  ATCURLs :: "string list"
  SessionSigningKey :: "flag_PrivateKey option"
  HeartbeatInterval :: Duration

text \<open>The struct tag \<^verbatim>\<open>default:"30s"\<close> of the field \<^verbatim>\<open>HeartbeatInterval\<close>.\<close>

definition default_HeartbeatInterval :: Duration where
  "default_HeartbeatInterval = 30 * Second"

datatype ATCEndpointPicker = NewRandomATCEndpointPicker "string list"

datatype TokenGenerator = NewTokenGenerator rsa_PrivateKey

datatype http_Client = DefaultClient

record server =
  logger :: lager_Logger
  heartbeatInterval :: Duration
  cprInterval :: Duration
  atcEndpointPicker :: ATCEndpointPicker
  tokenGenerator :: TokenGenerator
  forwardHost :: string
  config :: ServerConfig
  httpClient :: http_Client
  sessionTeam :: sessionTeam

text \<open>\<^verbatim>\<open>serverRunner{logger, server, listenAddr}\<close>, a literal with positional fields.\<close>

datatype serverRunner = serverRunner lager_Logger server string

fun serverRunner_server :: "serverRunner \<Rightarrow> server" where
  "serverRunner_server (serverRunner l srv addr) = srv"

definition constructLogger :: "TSACommand \<Rightarrow> WebConfig \<Rightarrow> lager_Logger \<times> ReconfigurableSink" where
  "constructLogger cmd webConfig =
     (case flag_Lager_Logger (Logger cmd) ''tsa'' of
        (lg, reconfigurableSink) \<Rightarrow>
          (if LogClusterName webConfig
           then (WithData lg [(''cluster'', ClusterName webConfig)], reconfigurableSink)
           else (lg, reconfigurableSink)))"

text \<open>\<^verbatim>\<open>for teamName, keys := range cmd.TeamAuthorizedKeys { teamKeys = append(...) }\<close>\<close>

fun loadTeamAuthorizedKeys_loop ::
  "(string \<times> flag_AuthorizedKeys) list \<Rightarrow> TeamAuthKeys list \<Rightarrow> TeamAuthKeys list" where
  "loadTeamAuthorizedKeys_loop [] teamKeys = teamKeys"
| "loadTeamAuthorizedKeys_loop ((teamName, keys) # rest) teamKeys =
     loadTeamAuthorizedKeys_loop rest (teamKeys @ [\<lparr>Team = teamName, AuthKeys = Keys keys\<rparr>])"

definition loadTeamAuthorizedKeys :: "TSACommand \<Rightarrow> error + TeamAuthKeys list" where
  "loadTeamAuthorizedKeys cmd = Inr (loadTeamAuthorizedKeys_loop (TeamAuthorizedKeys cmd) [])"

text \<open>
  The pointer \<^verbatim>\<open>sessionAuthTeam\<close> is not an argument of the model: the callbacks
  receive the registry when they are called.
\<close>

definition configureSSHServer ::
  "ssh_package \<Rightarrow> TSACommand \<Rightarrow> PublicKey list \<Rightarrow> TeamAuthKeys list \<Rightarrow> error + ServerConfig" where
  "configureSSHServer ssh cmd authorizedKeys teamAuthorizedKeys =
     (let cc = certChecker authorizedKeys teamAuthorizedKeys;
          config = \<lparr>Config = DefaultSSHConfig,
                    PublicKeyCallback = (\<lambda>conn key. Authenticate ssh cc conn key),
                    hostKeys = []\<rparr>
      in case NewSignerFromKey ssh (HostKey cmd) of
           Inl err \<Rightarrow> Inl (Errorf (''failed to create signer from host key: '' @ Error err))
         | Inr signer \<Rightarrow> Inr (AddHostKey config signer))"

text \<open>The verb \<^verbatim>\<open>%d\<close> of \<^verbatim>\<open>fmt.Sprintf\<close> on an unsigned number.\<close>

fun decimal :: "nat \<Rightarrow> string" where
  "decimal n =
     (if n < 10 then [char_of (48 + n)]
      else decimal (n div 10) @ [char_of (48 + n mod 10)])"

declare decimal.simps [simp del]

definition debugBindAddr :: "TSACommand \<Rightarrow> string" where
  "debugBindAddr cmd = DebugBindIP cmd @ '':'' @ decimal (unat (DebugBindPort cmd))"

text \<open>
  \<open>Runner\<close> returns its Go result and the entries it logged. Each \<^verbatim>\<open>return nil, err\<close>
  is a branch with \<open>Inl\<close>.
\<close>

definition Runner ::
  "ssh_package \<Rightarrow> TSACommand \<Rightarrow> string list \<Rightarrow> WebConfig
     \<Rightarrow> (error + serverRunner) \<times> LogEntry list" where
  "Runner ssh cmd args webConfig =
     (let lg = fst (constructLogger cmd webConfig);
          picker = NewRandomATCEndpointPicker (ATCURLs cmd)
      in case loadTeamAuthorizedKeys cmd of
           Inl err \<Rightarrow>
             (Inl (Errorf (''failed to load team authorized keys: '' @ Error err)), [])
         | Inr teamAuthorizedKeys \<Rightarrow>
             (let logged =
                    (if length (Keys (AuthorizedKeys cmd)) + length (TeamAuthorizedKeys cmd) = 0
                     then [Info lg ''starting-tsa-without-authorized-keys'']
                     else []);
                  sessionAuthTeam = \<lparr>sessionTeams = Map.empty\<rparr>
              in case configureSSHServer ssh cmd (Keys (AuthorizedKeys cmd)) teamAuthorizedKeys of
                   Inl err \<Rightarrow>
                     (Inl (Errorf (''failed to configure SSH server: '' @ Error err)), logged)
                 | Inr cfg \<Rightarrow>
                     (let listenAddr = BindIP cmd @ '':'' @ decimal (unat (BindPort cmd))
                      in case SessionSigningKey cmd of
                           None \<Rightarrow> (Inl (Errorf ''missing session signing key''), logged)
                         | Some signingKey \<Rightarrow>
                             (Inr (serverRunner lg
                                     \<lparr>logger = lg,
                                      heartbeatInterval = HeartbeatInterval cmd,
                                      cprInterval = 1 * Second,
                                      atcEndpointPicker = picker,
                                      tokenGenerator = NewTokenGenerator (PrivateKey signingKey),
                                      forwardHost = PeerAddress cmd,
                                      config = cfg,
                                      httpClient = DefaultClient,
                                      sessionTeam = sessionAuthTeam\<rparr>
                                     listenAddr),
                              logged))))"

subsection \<open>Presenting pipelines\<close>

text \<open>
  \<^verbatim>\<open>Pipeline\<close>, which presents one saved pipeline, is defined in another file and is
  a parameter here, as is the zero value of \<^verbatim>\<open>atc.Pipeline\<close> with which \<^verbatim>\<open>make\<close>
  fills the new slice. The loop \<^verbatim>\<open>for i := range savedPipelines\<close> counts \<open>i\<close> up to
  the length of the slice and assigns to index \<open>i\<close>.
\<close>

function Pipelines_loop :: "('d \<Rightarrow> 'p) \<Rightarrow> 'd list \<Rightarrow> nat \<Rightarrow> 'p list \<Rightarrow> 'p list" where
  "Pipelines_loop Pipeline savedPipelines i pipelines =
     (if i < length savedPipelines
      then Pipelines_loop Pipeline savedPipelines (Suc i)
             (pipelines[i := Pipeline (savedPipelines ! i)])
      else pipelines)"
  by pat_completeness auto
termination
  by (relation "measure (\<lambda>(Pipeline, savedPipelines, i, pipelines). length savedPipelines - i)") auto

declare Pipelines_loop.simps [simp del]

definition Pipelines :: "('d \<Rightarrow> 'p) \<Rightarrow> 'p \<Rightarrow> 'd list \<Rightarrow> 'p list" where
  "Pipelines Pipeline zero savedPipelines =
     Pipelines_loop Pipeline savedPipelines 0 (replicate (length savedPipelines) zero)"

subsection \<open>A concrete configuration\<close>

text \<open>
  Concrete inputs on which the theorems below are instantiated: a library whose
  \<open>NewSignerFromKey\<close> accepts every key that is present and whose \<open>Authenticate\<close>
  hands every key to the fallback, and a command with the defaults of the struct tags,
  both private keys, and no authorized keys at all.
\<close>

definition example_ssh :: ssh_package where
  "example_ssh =
     \<lparr>NewSignerFromKey =
        (\<lambda>k. case k of
               None \<Rightarrow> Inl (Errorf ''ssh: unsupported key type'')
             | Some pk \<Rightarrow> Inr (Signer pk)),
      Authenticate = (\<lambda>cc conn key s. UserKeyFallback cc conn key s)\<rparr>"

definition example_cmd :: TSACommand where
  "example_cmd =
     \<lparr>Logger = \<lparr>LogLevel = ''info''\<rparr>,
      BindIP = ''0.0.0.0'',
      PeerAddress = ''127.0.0.1'',
      BindPort = 2222,
      DebugBindIP = ''127.0.0.1'',
      DebugBindPort = 2221,
      HostKey = Some (flag_PrivateKey (rsa_PrivateKey ''host'')),
      AuthorizedKeys = \<lparr>Keys = []\<rparr>,
      TeamAuthorizedKeys = [],
      ATCURLs = [''http://127.0.0.1:8080''],
      SessionSigningKey = Some (flag_PrivateKey (rsa_PrivateKey ''signing'')),
      HeartbeatInterval = default_HeartbeatInterval\<rparr>"

definition example_webConfig :: WebConfig where
  "example_webConfig = \<lparr>LogClusterName = False, ClusterName = ''local''\<rparr>"

section \<open>Properties\<close>

subsection \<open>Auxiliary facts\<close>

lemma keys_loop_iff: "keys_loop ks key \<longleftrightarrow> (\<exists>k \<in> set ks. Marshal k = Marshal key)"
  by (induction ks) (auto simp: bytes_Equal_def)

lemma teams_loop_no_match:
  "\<forall>tk \<in> set tks. \<not> keys_loop (AuthKeys tk) key \<Longrightarrow>
     teams_loop tks conn key s = (Inl (Errorf ''unknown public key''), s)"
  by (induction tks) auto

lemma teams_loop_first_match:
  "\<forall>tk \<in> set pre. \<not> keys_loop (AuthKeys tk) key \<Longrightarrow> keys_loop (AuthKeys tk) key \<Longrightarrow>
     teams_loop (pre @ tk # post) conn key s =
       (case AuthorizeTeam s (SessionID conn) (Team tk) of
          Inl e \<Rightarrow> (Inl e, s)
        | Inr s' \<Rightarrow> (Inr None, s'))"
  by (induction pre) auto

lemma teams_loop_all_matches_same_team:
  assumes "tk \<in> set tks" and "keys_loop (AuthKeys tk) key"
    and "\<forall>tk' \<in> set tks. keys_loop (AuthKeys tk') key \<longrightarrow> Team tk' = Team tk"
  shows "teams_loop tks conn key s =
       (case AuthorizeTeam s (SessionID conn) (Team tk) of
          Inl e \<Rightarrow> (Inl e, s)
        | Inr s' \<Rightarrow> (Inr None, s'))"
  using assms
proof (induction tks)
  case Nil
  then show ?case by simp
next
  case (Cons a tks)
  show ?case
  proof (cases "keys_loop (AuthKeys a) key")
    case True
    with Cons.prems(3) have "Team a = Team tk" by simp
    with True show ?thesis by simp
  next
    case False
    with Cons.prems(1,2) have "tk \<in> set tks" by auto
    moreover from Cons.prems(3)
    have "\<forall>tk' \<in> set tks. keys_loop (AuthKeys tk') key \<longrightarrow> Team tk' = Team tk" by simp
    ultimately have "teams_loop tks conn key s =
       (case AuthorizeTeam s (SessionID conn) (Team tk) of
          Inl e \<Rightarrow> (Inl e, s)
        | Inr s' \<Rightarrow> (Inr None, s'))"
      using Cons.prems(2) Cons.IH by blast
    with False show ?thesis by simp
  qed
qed

lemma AuthorizeTeam_fresh_or_same:
  "sessionTeams s sid = None \<or> sessionTeams s sid = Some T \<Longrightarrow>
     AuthorizeTeam s sid T = Inr (s\<lparr>sessionTeams := (sessionTeams s)(sid \<mapsto> T)\<rparr>)"
proof (erule disjE)
  assume "sessionTeams s sid = None"
  then show ?thesis by (simp add: AuthorizeTeam_def)
next
  assume b: "sessionTeams s sid = Some T"
  then have "(sessionTeams s)(sid \<mapsto> T) = sessionTeams s"
    by (rule fun_upd_idem)
  with b show ?thesis by (simp add: AuthorizeTeam_def)
qed

lemma no_team_match_registry_unchanged:
  assumes "\<forall>tk \<in> set teamAuthorizedKeys. \<forall>k \<in> set (AuthKeys tk). Marshal k \<noteq> Marshal key"
  shows "snd (UserKeyFallback (certChecker authorizedKeys teamAuthorizedKeys) conn key s) = s"
proof -
  from assms have "\<forall>tk \<in> set teamAuthorizedKeys. \<not> keys_loop (AuthKeys tk) key"
    by (simp add: keys_loop_iff)
  then have "teams_loop teamAuthorizedKeys conn key s = (Inl (Errorf ''unknown public key''), s)"
    by (rule teams_loop_no_match)
  then show ?thesis
    by (simp add: certChecker_def UserKeyFallback_func_def)
qed

lemma first_team_match_single_bind:
  assumes g: "\<forall>k \<in> set authorizedKeys. Marshal k \<noteq> Marshal key"
    and p: "\<forall>tk' \<in> set pre. \<forall>k \<in> set (AuthKeys tk'). Marshal k \<noteq> Marshal key"
    and m: "\<exists>k \<in> set (AuthKeys tk). Marshal k = Marshal key"
  shows "UserKeyFallback (certChecker authorizedKeys (pre @ tk # post)) conn key s =
       (case AuthorizeTeam s (SessionID conn) (Team tk) of
          Inl e \<Rightarrow> (Inl e, s)
        | Inr s' \<Rightarrow> (Inr None, s'))"
proof -
  from g have no_global: "\<not> keys_loop authorizedKeys key"
    by (simp add: keys_loop_iff)
  from p have miss: "\<forall>tk' \<in> set pre. \<not> keys_loop (AuthKeys tk') key"
    by (simp add: keys_loop_iff)
  from m have hit: "keys_loop (AuthKeys tk) key"
    by (simp add: keys_loop_iff)
  have "UserKeyFallback (certChecker authorizedKeys (pre @ tk # post)) conn key s =
      teams_loop (pre @ tk # post) conn key s"
    using no_global by (simp add: certChecker_def UserKeyFallback_func_def)
  also have "\<dots> = (case AuthorizeTeam s (SessionID conn) (Team tk) of
          Inl e \<Rightarrow> (Inl e, s)
        | Inr s' \<Rightarrow> (Inr None, s'))"
    by (rule teams_loop_first_match [OF miss hit])
  finally show ?thesis .
qed


lemma Runner_Inr_server:
  "Runner ssh cmd args webConfig = (Inr r, logged) \<Longrightarrow>
     heartbeatInterval (serverRunner_server r) = HeartbeatInterval cmd \<and>
     cprInterval (serverRunner_server r) = 1 * Second"
  by (auto simp: Runner_def loadTeamAuthorizedKeys_def Let_def split: sum.splits option.splits)

lemma Runner_result:
  "fst (Runner ssh cmd args webConfig) =
     (case NewSignerFromKey ssh (HostKey cmd) of
        Inl err \<Rightarrow>
          Inl (Errorf (''failed to configure SSH server: '' @
                 ''failed to create signer from host key: '' @ Error err))
      | Inr signer \<Rightarrow>
          (case SessionSigningKey cmd of
             None \<Rightarrow> Inl (Errorf ''missing session signing key'')
           | Some signingKey \<Rightarrow>
               Inr (serverRunner (fst (constructLogger cmd webConfig))
                      \<lparr>logger = fst (constructLogger cmd webConfig),
                       heartbeatInterval = HeartbeatInterval cmd,
                       cprInterval = 1 * Second,
                       atcEndpointPicker = NewRandomATCEndpointPicker (ATCURLs cmd),
                       tokenGenerator = NewTokenGenerator (PrivateKey signingKey),
                       forwardHost = PeerAddress cmd,
                       config = AddHostKey
                         \<lparr>Config = DefaultSSHConfig,
                          PublicKeyCallback =
                            Authenticate ssh
                              (certChecker (Keys (AuthorizedKeys cmd))
                                 (loadTeamAuthorizedKeys_loop (TeamAuthorizedKeys cmd) [])),
                          hostKeys = []\<rparr> signer,
                       httpClient = DefaultClient,
                       sessionTeam = \<lparr>sessionTeams = Map.empty\<rparr>\<rparr>
                      (BindIP cmd @ '':'' @ decimal (unat (BindPort cmd))))))"
  by (simp add: Runner_def loadTeamAuthorizedKeys_def configureSSHServer_def Let_def
      split: sum.split option.split)

lemma Pipelines_loop_eq:
  "i \<le> length savedPipelines \<Longrightarrow> length pipelines = length savedPipelines \<Longrightarrow>
     Pipelines_loop Pipeline savedPipelines i pipelines =
       take i pipelines @ map Pipeline (drop i savedPipelines)"
proof (induction Pipeline savedPipelines i pipelines rule: Pipelines_loop.induct)
  case (1 Pipeline savedPipelines i pipelines)
  show ?case
  proof (cases "i < length savedPipelines")
    case True
    let ?ps = "pipelines[i := Pipeline (savedPipelines ! i)]"
    from True "1.prems" have "Pipelines_loop Pipeline savedPipelines (Suc i) ?ps =
        take (Suc i) ?ps @ map Pipeline (drop (Suc i) savedPipelines)"
      by (intro "1.IH") simp_all
    moreover from True "1.prems" have "take (Suc i) ?ps = take i pipelines @ [Pipeline (savedPipelines ! i)]"
      by (simp add: take_Suc_conv_app_nth)
    moreover from True have "drop i savedPipelines = savedPipelines ! i # drop (Suc i) savedPipelines"
      by (simp add: Cons_nth_drop_Suc)
    ultimately show ?thesis
      using True by (subst Pipelines_loop.simps) simp
  next
    case False
    with "1.prems" show ?thesis
      by (subst Pipelines_loop.simps) simp
  qed
qed

subsection \<open>Authentication\<close>

text \<open>
  C1. Let a key match no global key, let it match a key of the team \<open>tk\<close>, and let
  every team entry that it matches carry the name of \<open>tk\<close>. Authenticating a session
  with it, when the session is not already bound to another team, accepts the
  connection and binds the session to that team: a lookup of the session in the
  registry that is left behind returns the team, and no other entry has changed.
\<close>

theorem tenant_key_accepted_and_bound:
  assumes "\<forall>k \<in> set authorizedKeys. Marshal k \<noteq> Marshal key"
    and "tk \<in> set teamAuthorizedKeys"
    and "\<exists>k \<in> set (AuthKeys tk). Marshal k = Marshal key"
    and "\<forall>tk' \<in> set teamAuthorizedKeys.
           (\<exists>k \<in> set (AuthKeys tk'). Marshal k = Marshal key) \<longrightarrow> Team tk' = Team tk"
    and "Lookup s (SessionID conn) = None \<or> Lookup s (SessionID conn) = Some (Team tk)"
  shows "\<exists>s'. UserKeyFallback (certChecker authorizedKeys teamAuthorizedKeys) conn key s
                = (Inr None, s') \<and>
              Lookup s' (SessionID conn) = Some (Team tk) \<and>
              sessionTeams s' = (sessionTeams s)(SessionID conn \<mapsto> Team tk)"
proof -
  have no_global: "\<not> keys_loop authorizedKeys key"
    using assms(1) by (simp add: keys_loop_iff)
  have hit: "keys_loop (AuthKeys tk) key"
    using assms(3) by (simp add: keys_loop_iff)
  have only: "\<forall>tk' \<in> set teamAuthorizedKeys. keys_loop (AuthKeys tk') key \<longrightarrow> Team tk' = Team tk"
    using assms(4) by (simp add: keys_loop_iff)
  have unbound: "sessionTeams s (SessionID conn) = None \<or>
      sessionTeams s (SessionID conn) = Some (Team tk)"
    using assms(5) by (simp add: Lookup_def)
  have "UserKeyFallback (certChecker authorizedKeys teamAuthorizedKeys) conn key s =
      teams_loop teamAuthorizedKeys conn key s"
    using no_global by (simp add: certChecker_def UserKeyFallback_func_def)
  also have "\<dots> = (case AuthorizeTeam s (SessionID conn) (Team tk) of
         Inl e \<Rightarrow> (Inl e, s) | Inr s' \<Rightarrow> (Inr None, s'))"
    by (rule teams_loop_all_matches_same_team [OF assms(2) hit only])
  also have "\<dots> = (Inr None, s\<lparr>sessionTeams := (sessionTeams s)(SessionID conn \<mapsto> Team tk)\<rparr>)"
    by (simp add: AuthorizeTeam_fresh_or_same [OF unbound])
  finally show ?thesis
    by (simp add: Lookup_def)
qed

theorem tenant_key_accepted_and_bound_witness:
  "UserKeyFallback (certChecker [PublicKey ''G'']
       [\<lparr>Team = ''dev'', AuthKeys = [PublicKey ''D'']\<rparr>,
        \<lparr>Team = ''ops'', AuthKeys = [PublicKey ''J'', PublicKey ''K'']\<rparr>])
     \<lparr>User = ''worker'', SessionID = ''s1''\<rparr> (PublicKey ''K'') \<lparr>sessionTeams = Map.empty\<rparr>
   = (Inr None, \<lparr>sessionTeams = [''s1'' \<mapsto> ''ops'']\<rparr>) \<and>
   Lookup \<lparr>sessionTeams = [''s1'' \<mapsto> ''ops'']\<rparr> ''s1'' = Some ''ops''"
proof -
  let ?ops = "\<lparr>Team = ''ops'', AuthKeys = [PublicKey ''J'', PublicKey ''K'']\<rparr>"
  let ?tks = "[\<lparr>Team = ''dev'', AuthKeys = [PublicKey ''D'']\<rparr>, ?ops]"
  let ?s = "\<lparr>sessionTeams = Map.empty\<rparr>"
  let ?conn = "\<lparr>User = ''worker'', SessionID = ''s1''\<rparr>"
  have h1: "\<forall>k \<in> set [PublicKey ''G'']. Marshal k \<noteq> Marshal (PublicKey ''K'')"
    by simp
  have h2: "?ops \<in> set ?tks"
    by simp
  have h3: "\<exists>k \<in> set (AuthKeys ?ops). Marshal k = Marshal (PublicKey ''K'')"
    by simp
  have h4: "\<forall>tk' \<in> set ?tks.
      (\<exists>k \<in> set (AuthKeys tk'). Marshal k = Marshal (PublicKey ''K'')) \<longrightarrow> Team tk' = Team ?ops"
    by simp
  have h5: "Lookup ?s (SessionID ?conn) = None \<or> Lookup ?s (SessionID ?conn) = Some (Team ?ops)"
    by (simp add: Lookup_def)
  obtain s' where
    r: "UserKeyFallback (certChecker [PublicKey ''G''] ?tks) ?conn (PublicKey ''K'') ?s = (Inr None, s')"
    and m: "sessionTeams s' = (sessionTeams ?s)(SessionID ?conn \<mapsto> Team ?ops)"
    using tenant_key_accepted_and_bound [OF h1 h2 h3 h4 h5] by blast
  from m have "s' = \<lparr>sessionTeams = [''s1'' \<mapsto> ''ops'']\<rparr>"
    by (cases s') simp
  with r show ?thesis
    by (simp add: Lookup_def)
qed

text \<open>
  A session that is already bound to another team. The connection \<open>s1\<close> first offers
  the key \<open>D\<close> of team \<open>dev\<close>, which binds it to \<open>dev\<close>; it then offers the key \<open>K\<close>,
  which is in no global list and in the list of team \<open>ops\<close> only. The second call is
  not accepted: the binding operation rejects the bind to \<open>ops\<close>, and the lookup of the
  session still returns \<open>dev\<close>.
\<close>

theorem tenant_key_rejected_for_session_bound_elsewhere:
  "Marshal (PublicKey ''G'') \<noteq> Marshal (PublicKey ''K'') \<and>
   Marshal (PublicKey ''D'') \<noteq> Marshal (PublicKey ''K'') \<and>
   UserKeyFallback (certChecker [PublicKey ''G'']
       [\<lparr>Team = ''dev'', AuthKeys = [PublicKey ''D'']\<rparr>,
        \<lparr>Team = ''ops'', AuthKeys = [PublicKey ''K'']\<rparr>])
     \<lparr>User = ''worker'', SessionID = ''s1''\<rparr> (PublicKey ''D'') \<lparr>sessionTeams = Map.empty\<rparr>
   = (Inr None, \<lparr>sessionTeams = [''s1'' \<mapsto> ''dev'']\<rparr>) \<and>
   UserKeyFallback (certChecker [PublicKey ''G'']
       [\<lparr>Team = ''dev'', AuthKeys = [PublicKey ''D'']\<rparr>,
        \<lparr>Team = ''ops'', AuthKeys = [PublicKey ''K'']\<rparr>])
     \<lparr>User = ''worker'', SessionID = ''s1''\<rparr> (PublicKey ''K'')
     \<lparr>sessionTeams = [''s1'' \<mapsto> ''dev'']\<rparr>
   = (Inl InvariantViolation, \<lparr>sessionTeams = [''s1'' \<mapsto> ''dev'']\<rparr>) \<and>
   Lookup \<lparr>sessionTeams = [''s1'' \<mapsto> ''dev'']\<rparr> ''s1'' = Some ''dev'' \<and>
   Lookup \<lparr>sessionTeams = [''s1'' \<mapsto> ''dev'']\<rparr> ''s1'' \<noteq> Some ''ops''"
  by (simp add: certChecker_def UserKeyFallback_func_def bytes_Equal_def AuthorizeTeam_def
      Lookup_def)

text \<open>
  C2. A key whose encoding equals that of a key in the global authorized-key list is
  accepted for every connection and every state of the registry, and the registry is
  returned unchanged, whatever the team lists contain: the global loop runs first.
\<close>

theorem global_key_accepted_without_binding:
  "\<exists>k \<in> set authorizedKeys. Marshal k = Marshal key \<Longrightarrow>
     UserKeyFallback (certChecker authorizedKeys teamAuthorizedKeys) conn key s = (Inr None, s)"
  by (simp add: certChecker_def UserKeyFallback_func_def keys_loop_iff)

theorem global_key_accepted_without_binding_witness:
  "(\<exists>k \<in> set [PublicKey ''G'']. Marshal k = Marshal (PublicKey ''G'')) \<and>
   UserKeyFallback (certChecker [PublicKey ''G'']
       [\<lparr>Team = ''ops'', AuthKeys = [PublicKey ''G'', PublicKey ''K'']\<rparr>])
       \<lparr>User = ''worker'', SessionID = ''s1''\<rparr> (PublicKey ''G'')
       \<lparr>sessionTeams = Map.empty\<rparr>
     = (Inr None, \<lparr>sessionTeams = Map.empty\<rparr>)"
  using global_key_accepted_without_binding
    [of "[PublicKey ''G'']" "PublicKey ''G''"
        "[\<lparr>Team = ''ops'', AuthKeys = [PublicKey ''G'', PublicKey ''K'']\<rparr>]"
        "\<lparr>User = ''worker'', SessionID = ''s1''\<rparr>" "\<lparr>sessionTeams = Map.empty\<rparr>"]
  by simp

text \<open>
  C3. A key whose encoding equals that of no global key and of no key of any team is
  rejected with the error "unknown public key", and the registry is returned unchanged.
\<close>

theorem unknown_key_rejected_registry_unchanged:
  "\<forall>k \<in> set authorizedKeys. Marshal k \<noteq> Marshal key \<Longrightarrow>
   \<forall>tk \<in> set teamAuthorizedKeys. \<forall>k \<in> set (AuthKeys tk). Marshal k \<noteq> Marshal key \<Longrightarrow>
     UserKeyFallback (certChecker authorizedKeys teamAuthorizedKeys) conn key s
       = (Inl (Errorf ''unknown public key''), s)"
  by (simp add: certChecker_def UserKeyFallback_func_def keys_loop_iff teams_loop_no_match)

theorem unknown_key_rejected_registry_unchanged_witness:
  "Marshal (PublicKey ''G'') \<noteq> Marshal (PublicKey ''X'') \<and>
   Marshal (PublicKey ''K'') \<noteq> Marshal (PublicKey ''X'') \<and>
   UserKeyFallback (certChecker [PublicKey ''G''] [\<lparr>Team = ''ops'', AuthKeys = [PublicKey ''K'']\<rparr>])
       \<lparr>User = ''worker'', SessionID = ''s1''\<rparr> (PublicKey ''X'')
       \<lparr>sessionTeams = [''s0'' \<mapsto> ''ops'']\<rparr>
     = (Inl (Errorf ''unknown public key''), \<lparr>sessionTeams = [''s0'' \<mapsto> ''ops'']\<rparr>)"
  using unknown_key_rejected_registry_unchanged
    [of "[PublicKey ''G'']" "PublicKey ''X''"
        "[\<lparr>Team = ''ops'', AuthKeys = [PublicKey ''K'']\<rparr>]"
        "\<lparr>User = ''worker'', SessionID = ''s1''\<rparr>"
        "\<lparr>sessionTeams = [''s0'' \<mapsto> ''ops'']\<rparr>"]
  by simp

subsection \<open>The registry\<close>

text \<open>
  C4. Binding a session again to the team it is bound to succeeds and leaves the
  registry as it is; binding it to any other team fails with \<open>InvariantViolation\<close>
  and so does not overwrite the binding.
\<close>

theorem rebind_same_tenant_idempotent_other_tenant_rejected:
  assumes "Lookup s sessionID = Some T"
  shows "AuthorizeTeam s sessionID T = Inr s \<and>
         (\<forall>T'. T' \<noteq> T \<longrightarrow> AuthorizeTeam s sessionID T' = Inl InvariantViolation)"
  using assms by (simp add: AuthorizeTeam_def Lookup_def)

theorem rebind_same_tenant_idempotent_other_tenant_rejected_witness:
  "Lookup \<lparr>sessionTeams = [''s1'' \<mapsto> ''ops'']\<rparr> ''s1'' = Some ''ops'' \<and>
   AuthorizeTeam \<lparr>sessionTeams = [''s1'' \<mapsto> ''ops'']\<rparr> ''s1'' ''ops''
     = Inr \<lparr>sessionTeams = [''s1'' \<mapsto> ''ops'']\<rparr> \<and>
   AuthorizeTeam \<lparr>sessionTeams = [''s1'' \<mapsto> ''ops'']\<rparr> ''s1'' ''dev'' = Inl InvariantViolation"
  using rebind_same_tenant_idempotent_other_tenant_rejected
    [of "\<lparr>sessionTeams = [''s1'' \<mapsto> ''ops'']\<rparr>" "''s1''" "''ops''"]
  by (simp add: Lookup_def)

subsection \<open>The first matching team\<close>

text \<open>
  C5. A call whose key matches no key of any team leaves the registry as it is, so a
  session is not bound before a team key matches. For a key that matches no global
  key, let \<open>tk\<close> be the first team, in the order of the list, that holds the key. The
  call is then exactly one call of the binding operation, with the session and the
  name of \<open>tk\<close>; the teams after \<open>tk\<close> are never examined, whatever keys they hold.
  When the session is not already bound to another team, the call is accepted and that
  one binding is the only change to the registry.
\<close>

theorem first_matching_team_bound_once:
  "((\<forall>tk \<in> set teamAuthorizedKeys. \<forall>k \<in> set (AuthKeys tk). Marshal k \<noteq> Marshal key) \<longrightarrow>
      snd (UserKeyFallback (certChecker authorizedKeys teamAuthorizedKeys) conn key s) = s) \<and>
   ((\<forall>k \<in> set authorizedKeys. Marshal k \<noteq> Marshal key) \<and>
    (\<forall>tk' \<in> set pre. \<forall>k \<in> set (AuthKeys tk'). Marshal k \<noteq> Marshal key) \<and>
    (\<exists>k \<in> set (AuthKeys tk). Marshal k = Marshal key) \<longrightarrow>
      UserKeyFallback (certChecker authorizedKeys (pre @ tk # post)) conn key s =
        (case AuthorizeTeam s (SessionID conn) (Team tk) of
           Inl e \<Rightarrow> (Inl e, s)
         | Inr s' \<Rightarrow> (Inr None, s')) \<and>
      (Lookup s (SessionID conn) = None \<or> Lookup s (SessionID conn) = Some (Team tk) \<longrightarrow>
         UserKeyFallback (certChecker authorizedKeys (pre @ tk # post)) conn key s =
           (Inr None, s\<lparr>sessionTeams := (sessionTeams s)(SessionID conn \<mapsto> Team tk)\<rparr>)))"
proof (intro conjI impI)
  assume "\<forall>tk \<in> set teamAuthorizedKeys. \<forall>k \<in> set (AuthKeys tk). Marshal k \<noteq> Marshal key"
  then show "snd (UserKeyFallback (certChecker authorizedKeys teamAuthorizedKeys) conn key s) = s"
    by (rule no_team_match_registry_unchanged)
next
  assume h: "(\<forall>k \<in> set authorizedKeys. Marshal k \<noteq> Marshal key) \<and>
    (\<forall>tk' \<in> set pre. \<forall>k \<in> set (AuthKeys tk'). Marshal k \<noteq> Marshal key) \<and>
    (\<exists>k \<in> set (AuthKeys tk). Marshal k = Marshal key)"
  then show "UserKeyFallback (certChecker authorizedKeys (pre @ tk # post)) conn key s =
        (case AuthorizeTeam s (SessionID conn) (Team tk) of
           Inl e \<Rightarrow> (Inl e, s)
         | Inr s' \<Rightarrow> (Inr None, s'))"
    by (simp add: first_team_match_single_bind)
  assume "Lookup s (SessionID conn) = None \<or> Lookup s (SessionID conn) = Some (Team tk)"
  then have "sessionTeams s (SessionID conn) = None \<or>
      sessionTeams s (SessionID conn) = Some (Team tk)"
    by (simp add: Lookup_def)
  then have "AuthorizeTeam s (SessionID conn) (Team tk) =
      Inr (s\<lparr>sessionTeams := (sessionTeams s)(SessionID conn \<mapsto> Team tk)\<rparr>)"
    by (rule AuthorizeTeam_fresh_or_same)
  with h show "UserKeyFallback (certChecker authorizedKeys (pre @ tk # post)) conn key s =
      (Inr None, s\<lparr>sessionTeams := (sessionTeams s)(SessionID conn \<mapsto> Team tk)\<rparr>)"
    by (simp add: first_team_match_single_bind)
qed

theorem first_matching_team_bound_once_witness:
  "UserKeyFallback (certChecker [PublicKey ''G'']
       ([\<lparr>Team = ''dev'', AuthKeys = [PublicKey ''D'']\<rparr>] @
         \<lparr>Team = ''ops'', AuthKeys = [PublicKey ''K'']\<rparr> #
        [\<lparr>Team = ''qa'', AuthKeys = [PublicKey ''K'']\<rparr>]))
     \<lparr>User = ''worker'', SessionID = ''s1''\<rparr> (PublicKey ''K'') \<lparr>sessionTeams = Map.empty\<rparr>
   = (Inr None, \<lparr>sessionTeams = [''s1'' \<mapsto> ''ops'']\<rparr>) \<and>
   snd (UserKeyFallback (certChecker [PublicKey ''G'']
       [\<lparr>Team = ''dev'', AuthKeys = [PublicKey ''D'']\<rparr>])
     \<lparr>User = ''worker'', SessionID = ''s1''\<rparr> (PublicKey ''K'') \<lparr>sessionTeams = Map.empty\<rparr>)
   = \<lparr>sessionTeams = Map.empty\<rparr>"
proof -
  let ?g = "[PublicKey ''G'']"
  let ?dev = "\<lparr>Team = ''dev'', AuthKeys = [PublicKey ''D'']\<rparr>"
  let ?ops = "\<lparr>Team = ''ops'', AuthKeys = [PublicKey ''K'']\<rparr>"
  let ?qa = "\<lparr>Team = ''qa'', AuthKeys = [PublicKey ''K'']\<rparr>"
  let ?conn = "\<lparr>User = ''worker'', SessionID = ''s1''\<rparr>"
  let ?s = "\<lparr>sessionTeams = Map.empty\<rparr>"
  note t = first_matching_team_bound_once
    [of "[?dev]" "PublicKey ''K''" ?g ?conn ?s "[?dev]" ?ops "[?qa]"]
  have none: "\<forall>tk \<in> set [?dev]. \<forall>k \<in> set (AuthKeys tk). Marshal k \<noteq> Marshal (PublicKey ''K'')"
    by simp
  have first: "(\<forall>k \<in> set ?g. Marshal k \<noteq> Marshal (PublicKey ''K'')) \<and>
    (\<forall>tk' \<in> set [?dev]. \<forall>k \<in> set (AuthKeys tk'). Marshal k \<noteq> Marshal (PublicKey ''K'')) \<and>
    (\<exists>k \<in> set (AuthKeys ?ops). Marshal k = Marshal (PublicKey ''K''))"
    by simp
  have fresh: "Lookup ?s (SessionID ?conn) = None \<or> Lookup ?s (SessionID ?conn) = Some (Team ?ops)"
    by (simp add: Lookup_def)
  from t [THEN conjunct1, THEN mp, OF none]
  have a: "snd (UserKeyFallback (certChecker ?g [?dev]) ?conn (PublicKey ''K'') ?s) = ?s" .
  from t [THEN conjunct2, THEN mp, OF first, THEN conjunct2, THEN mp, OF fresh]
  have b: "UserKeyFallback (certChecker ?g ([?dev] @ ?ops # [?qa])) ?conn (PublicKey ''K'') ?s =
      (Inr None, ?s\<lparr>sessionTeams := (sessionTeams ?s)(SessionID ?conn \<mapsto> Team ?ops)\<rparr>)" .
  from a b show ?thesis
    by simp
qed

text \<open>
  Two calls with a key \<open>K\<close> that the teams \<open>ops\<close> and \<open>qa\<close> both hold, in which no
  binding to \<open>ops\<close> is recorded. In the first the session is bound to \<open>dev\<close> already:
  the call fails and the session stays bound to \<open>dev\<close>. In the second \<open>K\<close> is a global
  key as well: the call is accepted by the global loop and the registry stays empty.
\<close>

theorem key_of_several_teams_without_binding:
  "UserKeyFallback (certChecker [PublicKey ''G'']
       [\<lparr>Team = ''dev'', AuthKeys = [PublicKey ''D'']\<rparr>,
        \<lparr>Team = ''ops'', AuthKeys = [PublicKey ''K'']\<rparr>,
        \<lparr>Team = ''qa'', AuthKeys = [PublicKey ''K'']\<rparr>])
     \<lparr>User = ''worker'', SessionID = ''s1''\<rparr> (PublicKey ''K'')
     \<lparr>sessionTeams = [''s1'' \<mapsto> ''dev'']\<rparr>
   = (Inl InvariantViolation, \<lparr>sessionTeams = [''s1'' \<mapsto> ''dev'']\<rparr>) \<and>
   UserKeyFallback (certChecker [PublicKey ''K'']
       [\<lparr>Team = ''ops'', AuthKeys = [PublicKey ''K'']\<rparr>,
        \<lparr>Team = ''qa'', AuthKeys = [PublicKey ''K'']\<rparr>])
     \<lparr>User = ''worker'', SessionID = ''s1''\<rparr> (PublicKey ''K'') \<lparr>sessionTeams = Map.empty\<rparr>
   = (Inr None, \<lparr>sessionTeams = Map.empty\<rparr>) \<and>
   Lookup \<lparr>sessionTeams = [''s1'' \<mapsto> ''dev'']\<rparr> ''s1'' \<noteq> Some ''ops'' \<and>
   Lookup \<lparr>sessionTeams = Map.empty\<rparr> ''s1'' = None"
  by (simp add: certChecker_def UserKeyFallback_func_def bytes_Equal_def AuthorizeTeam_def
      Lookup_def)

subsection \<open>Construction of the runner\<close>




text \<open>
  C7. When the session signing key is absent, \<open>Runner\<close> returns an error and no runner;
  when the host key yields a signer, the error is "missing session signing key".
\<close>

theorem missing_signing_key_fails:
  assumes "SessionSigningKey cmd = None"
  shows "(\<exists>e. fst (Runner ssh cmd args webConfig) = Inl e) \<and>
         (\<forall>signer. NewSignerFromKey ssh (HostKey cmd) = Inr signer \<longrightarrow>
            fst (Runner ssh cmd args webConfig) = Inl (Errorf ''missing session signing key''))"
  using assms by (simp add: Runner_result split: sum.split)

theorem missing_signing_key_fails_witness:
  "fst (Runner example_ssh (example_cmd\<lparr>SessionSigningKey := None\<rparr>) [] example_webConfig)
     = Inl (Errorf ''missing session signing key'')"
proof -
  let ?cmd = "example_cmd\<lparr>SessionSigningKey := None\<rparr>"
  have absent: "SessionSigningKey ?cmd = None"
    by simp
  have ok: "NewSignerFromKey example_ssh (HostKey ?cmd)
      = Inr (Signer (flag_PrivateKey (rsa_PrivateKey ''host'')))"
    by (simp add: example_ssh_def example_cmd_def)
  from missing_signing_key_fails [OF absent, THEN conjunct2, THEN spec, THEN mp, OF ok]
  show ?thesis .
qed

text \<open>
  C8. The server of every runner that \<open>Runner\<close> returns has two interval fields: the
  interval of the continuous process report is one second, and the heartbeat interval
  is that of the command, whose default is thirty seconds. With the default, the
  former is strictly shorter than the latter (as signed 64-bit durations).
\<close>

theorem recovery_interval_shorter_than_default_heartbeat:
  assumes "Runner ssh cmd args webConfig = (Inr r, logged)"
  shows "cprInterval (serverRunner_server r) = 1 * Second \<and>
         heartbeatInterval (serverRunner_server r) = HeartbeatInterval cmd \<and>
         default_HeartbeatInterval = 30 * Second \<and>
         (HeartbeatInterval cmd = default_HeartbeatInterval \<longrightarrow>
            cprInterval (serverRunner_server r) <s heartbeatInterval (serverRunner_server r))"
  using Runner_Inr_server [OF assms]
  by (simp add: default_HeartbeatInterval_def Second_def word_sless_alt)

theorem recovery_interval_shorter_than_default_heartbeat_witness:
  "\<exists>r logged. Runner example_ssh example_cmd [] example_webConfig = (Inr r, logged) \<and>
     cprInterval (serverRunner_server r) = 1000000000 \<and>
     heartbeatInterval (serverRunner_server r) = 30000000000 \<and>
     cprInterval (serverRunner_server r) <s heartbeatInterval (serverRunner_server r)"
proof -
  have "\<exists>r. fst (Runner example_ssh example_cmd [] example_webConfig) = Inr r"
    by (simp add: Runner_result example_ssh_def example_cmd_def)
  then obtain r logged where run: "Runner example_ssh example_cmd [] example_webConfig = (Inr r, logged)"
    by (cases "Runner example_ssh example_cmd [] example_webConfig") auto
  have dflt: "HeartbeatInterval example_cmd = default_HeartbeatInterval"
    by (simp add: example_cmd_def)
  note t = recovery_interval_shorter_than_default_heartbeat [OF run]
  have c: "cprInterval (serverRunner_server r) = 1000000000"
    using t [THEN conjunct1] by (simp add: Second_def)
  have h: "heartbeatInterval (serverRunner_server r) = 30000000000"
    using t [THEN conjunct2, THEN conjunct1] dflt
    by (simp add: default_HeartbeatInterval_def Second_def)
  have l: "cprInterval (serverRunner_server r) <s heartbeatInterval (serverRunner_server r)"
    by (rule t [THEN conjunct2, THEN conjunct2, THEN conjunct2, THEN mp, OF dflt])
  from run c h l show ?thesis by blast
qed

subsection \<open>Certificate authorities\<close>



subsection \<open>The presented pipelines\<close>

text \<open>
  C10. For every list of saved pipelines, \<open>Pipelines\<close> returns a list of the same
  length whose element at each index is \<open>Pipeline\<close> of the saved pipeline at that
  index: the result is the map of \<open>Pipeline\<close> over the list, in order.
\<close>

theorem Pipelines_is_map:
  "length (Pipelines Pipeline zero savedPipelines) = length savedPipelines \<and>
   (\<forall>i < length savedPipelines.
      Pipelines Pipeline zero savedPipelines ! i = Pipeline (savedPipelines ! i)) \<and>
   Pipelines Pipeline zero savedPipelines = map Pipeline savedPipelines"
  by (simp add: Pipelines_def Pipelines_loop_eq)

theorem Pipelines_is_map_witness:
  "Pipelines (\<lambda>n::nat. n * n) 0 [3, 1, 2] = [9, 1, 4] \<and>
   length (Pipelines (\<lambda>n::nat. n * n) 0 [3, 1, 2]) = 3"
  using Pipelines_is_map [of "\<lambda>n::nat. n * n" 0 "[3, 1, 2]"]
  by simp

end
